theory Spec2Isabelle
  imports Main "HOL-Library.Sublist" "HOL-Library.Word"
begin

unbundle bit_operations_syntax

section \<open>Go strings and the standard-library functions the program calls\<close>

text \<open>
  A Go \<open>string\<close> is a sequence of bytes, here a \<open>char list\<close>. The functions of this
  section are the functions of Go's packages \<open>strings\<close>, \<open>unicode\<close>, \<open>strconv\<close> and
  \<open>path/filepath\<close> (Unix) that the program calls, written at the level of bytes.
\<close>

definition HasPrefix :: "string \<Rightarrow> string \<Rightarrow> bool" where
  "HasPrefix s p = prefix p s"

definition TrimPrefix :: "string \<Rightarrow> string \<Rightarrow> string" where
  "TrimPrefix s p = (if HasPrefix s p then drop (length p) s else s)"


text \<open>
  \<open>unicode.IsSpace\<close> holds of the code points U+0009..U+000D, U+0020, U+0085, U+00A0,
  U+1680, U+2000..U+200A, U+2028, U+2029, U+202F, U+205F and U+3000. \<open>spaceSeqs\<close> lists
  their UTF-8 encodings; a byte sequence decodes to a white-space rune exactly when it
  starts with one of them.
\<close>

definition spaceSeqs :: "string list" where
  "spaceSeqs =
    [[CHR 0x09], [CHR 0x0A], [CHR 0x0B], [CHR 0x0C], [CHR 0x0D], [CHR 0x20],
     [CHR 0xC2, CHR 0x85], [CHR 0xC2, CHR 0xA0],
     [CHR 0xE1, CHR 0x9A, CHR 0x80],
     [CHR 0xE2, CHR 0x80, CHR 0x80], [CHR 0xE2, CHR 0x80, CHR 0x81],
     [CHR 0xE2, CHR 0x80, CHR 0x82], [CHR 0xE2, CHR 0x80, CHR 0x83],
     [CHR 0xE2, CHR 0x80, CHR 0x84], [CHR 0xE2, CHR 0x80, CHR 0x85],
     [CHR 0xE2, CHR 0x80, CHR 0x86], [CHR 0xE2, CHR 0x80, CHR 0x87],
     [CHR 0xE2, CHR 0x80, CHR 0x88], [CHR 0xE2, CHR 0x80, CHR 0x89],
     [CHR 0xE2, CHR 0x80, CHR 0x8A],
     [CHR 0xE2, CHR 0x80, CHR 0xA8], [CHR 0xE2, CHR 0x80, CHR 0xA9],
     [CHR 0xE2, CHR 0x80, CHR 0xAF],
     [CHR 0xE2, CHR 0x81, CHR 0x9F],
     [CHR 0xE3, CHR 0x80, CHR 0x80]]"

text \<open>The width in bytes of the white-space rune at the front of \<open>s\<close>; 0 when there is none.\<close>

definition spaceWidth :: "string \<Rightarrow> nat" where
  "spaceWidth s = (case find (\<lambda>e. prefix e s) spaceSeqs of None \<Rightarrow> 0 | Some e \<Rightarrow> length e)"

text \<open>The same at the end of \<open>s\<close> (\<open>utf8.DecodeLastRuneInString\<close>).\<close>

definition lastSpaceWidth :: "string \<Rightarrow> nat" where
  "lastSpaceWidth s = (case find (\<lambda>e. suffix e s) spaceSeqs of None \<Rightarrow> 0 | Some e \<Rightarrow> length e)"

lemma spaceSeqs_nonempty: "e \<in> set spaceSeqs \<Longrightarrow> e \<noteq> []"
  by (auto simp: spaceSeqs_def)

lemma spaceWidth_le: "spaceWidth s \<le> length s"
  by (auto simp: spaceWidth_def prefix_length_le find_Some_iff split: option.splits)

lemma spaceWidth_Nil [simp]: "spaceWidth [] = 0"
  using spaceWidth_le [of "[]"] by simp

lemma lastSpaceWidth_le: "lastSpaceWidth s \<le> length s"
  by (auto simp: lastSpaceWidth_def suffix_length_le find_Some_iff split: option.splits)

lemma lastSpaceWidth_Nil [simp]: "lastSpaceWidth [] = 0"
  using lastSpaceWidth_le [of "[]"] by simp

text \<open>\<open>strings.TrimLeftFunc(s, unicode.IsSpace)\<close>: drop white-space runes from the front.\<close>

function TrimLeftSpace :: "string \<Rightarrow> string" where
  "TrimLeftSpace s = (if spaceWidth s = 0 then s else TrimLeftSpace (drop (spaceWidth s) s))"
  by pat_completeness auto
termination
proof (relation "measure length")
  show "wf (measure length)" by simp
next
  fix s :: string
  assume "spaceWidth s \<noteq> 0"
  moreover from this have "s \<noteq> []" by auto
  ultimately show "(drop (spaceWidth s) s, s) \<in> measure length" by simp
qed

text \<open>\<open>strings.TrimRightFunc(s, unicode.IsSpace)\<close>: drop white-space runes from the end.\<close>

function TrimRightSpace :: "string \<Rightarrow> string" where
  "TrimRightSpace s =
     (if lastSpaceWidth s = 0 then s else TrimRightSpace (take (length s - lastSpaceWidth s) s))"
  by pat_completeness auto
termination
proof (relation "measure length")
  show "wf (measure length)" by simp
next
  fix s :: string
  assume "lastSpaceWidth s \<noteq> 0"
  moreover from this have "s \<noteq> []" by auto
  ultimately show "(take (length s - lastSpaceWidth s) s, s) \<in> measure length" by simp
qed

declare TrimLeftSpace.simps [simp del] TrimRightSpace.simps [simp del]

text \<open>\<open>strings.TrimSpace\<close>: leading and trailing white space removed.\<close>

definition TrimSpace :: "string \<Rightarrow> string" where
  "TrimSpace s = TrimRightSpace (TrimLeftSpace s)"

section \<open>The HEAD parser\<close>

text \<open>
  \<^verbatim>\<open>
  func parseGitHeadRef(content string) string {
      line := strings.TrimSpace(content)
      if !strings.HasPrefix(line, "ref: ") {
          return "" // detached HEAD or invalid
      }
      return strings.TrimPrefix(line, "ref: ")
  }
  \<close>
\<close>

definition parseGitHeadRef :: "string \<Rightarrow> string" where
  "parseGitHeadRef content =
     (let line = TrimSpace content
      in if \<not> HasPrefix line ''ref: '' then [] else TrimPrefix line ''ref: '')"

text \<open>The bytes of a raw commit hash as git writes it to HEAD: hexadecimal digits, then a line end.\<close>

definition isHashByte :: "char \<Rightarrow> bool" where
  "isHashByte c = (c \<in> set ''0123456789abcdefABCDEF'' \<or> c \<in> set [CHR 0x0A, CHR 0x0D, CHR 0x20])"

section \<open>Integers and their decimal text\<close>

text \<open>
  Go's \<open>int\<close> (on the 64-bit platforms the daemon runs on) and \<open>int64\<close> are 64-bit two's
  complement: \<open>+\<close> wraps, \<open>sint\<close> reads the value.
\<close>

type_synonym int64 = "64 word"

definition isDigit :: "char \<Rightarrow> bool" where
  "isDigit c = ((48::int) \<le> of_char c \<and> (of_char c :: int) \<le> 57)"

definition digitVal :: "char \<Rightarrow> int" where
  "digitVal c = of_char c - 48"

datatype NumError = ErrSyntax | ErrRange

definition maxUint64 :: int where
  "maxUint64 = 18446744073709551615"

definition maxInt64 :: int where
  "maxInt64 = 9223372036854775807"

text \<open>
  The digit loop of \<open>strconv.ParseUint(s, 10, 64)\<close>, the accumulator \<open>n\<close> a \<open>uint64\<close> read
  as a number: a byte that is not a digit is a syntax error with value 0; a digit that would
  take \<open>n\<close> past \<open>maxUint64\<close> stops the loop at once with \<open>maxUint64\<close> and a range error,
  whatever follows it.
\<close>

fun parseUintLoop :: "int \<Rightarrow> string \<Rightarrow> int \<times> NumError option" where
  "parseUintLoop n [] = (n, None)"
| "parseUintLoop n (c # cs) =
     (if \<not> isDigit c then (0, Some ErrSyntax)
      else if n \<ge> maxUint64 div 10 + 1 then (maxUint64, Some ErrRange)
      else if n * 10 + digitVal c > maxUint64 then (maxUint64, Some ErrRange)
      else parseUintLoop (n * 10 + digitVal c) cs)"





text \<open>The text \<open>fmt\<close> writes for \<open>%d\<close>: decimal digits, with a minus sign below zero.\<close>

function showDec :: "int \<Rightarrow> string" where
  "showDec n = (if n < 10 then [char_of (48 + n)]
                else showDec (n div 10) @ [char_of (48 + n mod 10)])"
  by pat_completeness auto
termination
  by (relation "measure nat") auto

declare showDec.simps [simp del]

definition showInt :: "int64 \<Rightarrow> string" where
  "showInt i = (if sint i < 0 then CHR ''-'' # showDec (- sint i) else showDec (sint i))"

section \<open>More of package strings\<close>






section \<open>Diagnostics and events (interpreter.go)\<close>

record Position =
  Line :: int64
  Character :: int64

text \<open>
  The field \<open>Code\<close> has Go's type \<open>any\<close>: a number for TypeScript errors, a string for Svelte
  warnings, nil when the JSON has none.
\<close>

datatype Code = CodeNil | CodeNumber int | CodeString string

record Diagnostic =
  Timestamp :: int64
  Type :: string
  Filename :: string
  Start :: Position
  End :: Position
  Message :: string
  Code :: Code
  Source :: string

record SvelteWatchCheckComplete =
  Timestamp :: int64
  Diagnostics :: "Diagnostic list"
  FileCount :: int64
  ErrorCount :: int64
  WarningCount :: int64
  FilesWithProblems :: int64

datatype SvelteCheckEvent =
    SvelteWatchCheckStart int64 string
  | CheckComplete SvelteWatchCheckComplete
  | SvelteWatchFailure int64 string

section \<open>The interpreter (interpreter.go)\<close>









section \<open>Human rendering (interpreter.go)\<close>

text \<open>One turn of the loop over \<open>event.Diagnostics\<close>: \<open>sb.WriteString(fmt.Sprintf(...))\<close>.\<close>

definition writeDiagnostic :: "string \<Rightarrow> Diagnostic \<Rightarrow> string" where
  "writeDiagnostic sb d =
     sb @ Filename d @ '':'' @ showInt (Line (Start d) + 1) @ '':'' @
          showInt (Character (Start d) + 1) @ '' - '' @ Type d @ '': '' @ Message d @
          [CHR 0x0A]"

definition FormatHuman :: "SvelteWatchCheckComplete \<Rightarrow> string" where
  "FormatHuman event =
     (if length (Diagnostics event) = 0 then
        ''svelte-check found no issues ('' @ showInt (FileCount event) @ '' files checked)'' @
        [CHR 0x0A]
      else
        foldl writeDiagnostic [] (Diagnostics event) @
        [CHR 0x0A] @ ''svelte-check: '' @ showInt (ErrorCount event) @ '' errors, '' @
        showInt (WarningCount event) @ '' warnings ('' @ showInt (FileCount event) @
        '' files checked)'' @ [CHR 0x0A])"

section \<open>The rendering in the words of the specification\<close>

text \<open>The decimal text of an integer.\<close>

definition decimal :: "int \<Rightarrow> string" where
  "decimal n = (if n < 0 then CHR ''-'' # showDec (- n) else showDec n)"

text \<open>
  One line per diagnostic, \<open><filename>:<line+1>:<character+1> - <SEVERITY>: <message>\<close>,
  the summary line and the line for a snapshot without diagnostics, each with its line
  end. The positions are numbers: \<open>line+1\<close> is the successor of the zero-based line, the
  one-based line.
\<close>

definition diagnosticLine :: "Diagnostic \<Rightarrow> string" where
  "diagnosticLine d =
     Filename d @ '':'' @ decimal (sint (Line (Start d)) + 1) @ '':'' @
     decimal (sint (Character (Start d)) + 1) @ '' - '' @ Type d @ '': '' @ Message d @
     [CHR 0x0A]"

definition summaryLine :: "SvelteWatchCheckComplete \<Rightarrow> string" where
  "summaryLine event =
     ''svelte-check: '' @ decimal (sint (ErrorCount event)) @ '' errors, '' @
     decimal (sint (WarningCount event)) @ '' warnings ('' @
     decimal (sint (FileCount event)) @ '' files checked)'' @ [CHR 0x0A]"

definition noIssuesLine :: "SvelteWatchCheckComplete \<Rightarrow> string" where
  "noIssuesLine event =
     ''svelte-check found no issues ('' @ decimal (sint (FileCount event)) @
     '' files checked)'' @ [CHR 0x0A]"

text \<open>The start positions of all diagnostics lie below the largest \<open>int\<close>.\<close>

definition positionsBelowMax :: "SvelteWatchCheckComplete \<Rightarrow> bool" where
  "positionsBelowMax event =
     list_all (\<lambda>d. sint (Line (Start d)) < maxInt64 \<and> sint (Character (Start d)) < maxInt64)
       (Diagnostics event)"

text \<open>A snapshot whose diagnostic starts at the largest line number an \<open>int\<close> holds.\<close>

definition lastLineSnapshot :: SvelteWatchCheckComplete where
  "lastLineSnapshot =
     \<lparr>Timestamp = 1770255834342,
      Diagnostics =
        [\<lparr>Diagnostic.Timestamp = 1770255834342, Type = ''ERROR'', Filename = ''u.ts'',
          Start = \<lparr>Line = 9223372036854775807, Character = 0\<rparr>,
          End = \<lparr>Line = 9223372036854775807, Character = 1\<rparr>,
          Message = ''Bad'', Code = CodeNumber 2307, Source = []\<rparr>],
      FileCount = 1, ErrorCount = 1, WarningCount = 0, FilesWithProblems = 1\<rparr>"

section \<open>The input stream in the words of the specification\<close>














section \<open>Sample streams\<close>






section \<open>The snapshot cell\<close>

text \<open>
  Modelled from the spec: the cell \<open>signal.Signal\<close> of package
  \<open>github.com/tylergannon/go-signal\<close>, which is not among the sources. The cell is empty
  (readers block) or full with one value: \<open>Invalidate\<close> empties it, \<open>Set\<close> fills it, and
  \<open>Get\<close> returns the value of a full cell and blocks on an empty one (\<open>None\<close>).
\<close>

type_synonym 'a Signal = "'a option"

definition Invalidate :: "'a Signal \<Rightarrow> 'a Signal" where
  "Invalidate cell = None"

definition Set :: "'a \<Rightarrow> 'a Signal \<Rightarrow> 'a Signal" where
  "Set v cell = Some v"

definition Get :: "'a Signal \<Rightarrow> 'a option" where
  "Get cell = cell"

section \<open>The runner's event consumer\<close>

text \<open>The part of the \<open>Runner\<close> that \<open>handleEvents\<close> touches: the cell \<open>latest\<close> and the log.\<close>

record Runner =
  latest :: "SvelteWatchCheckComplete Signal"
  logged :: "string list"

text \<open>
  \<^verbatim>\<open>
  func (r *Runner) handleEvents(events <-chan SvelteCheckEvent) {
      for event := range events {
          switch e := event.(type) {
          case SvelteWatchCheckStart:
              r.latest.Invalidate()
              log.Println("svelte-check started")
          case SvelteWatchCheckComplete:
              r.latest.Set(e)
              log.Printf("svelte-check completed: %d errors, %d warnings", e.ErrorCount, e.WarningCount)
          case SvelteWatchFailure:
              log.Printf("svelte-check failure: %s", e.Message)
          }
      }
  }
  \<close>
\<close>

fun handleEvent :: "Runner \<Rightarrow> SvelteCheckEvent \<Rightarrow> Runner" where
  "handleEvent r (SvelteWatchCheckStart timestamp workspace) =
     r\<lparr>latest := Invalidate (latest r), logged := logged r @ [''svelte-check started'']\<rparr>"
| "handleEvent r (CheckComplete e) =
     r\<lparr>latest := Set e (latest r),
       logged := logged r @
         [''svelte-check completed: '' @ showInt (ErrorCount e) @ '' errors, '' @
          showInt (WarningCount e) @ '' warnings'']\<rparr>"
| "handleEvent r (SvelteWatchFailure timestamp message) =
     r\<lparr>logged := logged r @ [''svelte-check failure: '' @ message]\<rparr>"

definition handleEvents :: "Runner \<Rightarrow> SvelteCheckEvent list \<Rightarrow> Runner" where
  "handleEvents r evs = foldl handleEvent r evs"

text \<open>\<open>GetLatestEvent\<close> delegates to \<open>Get\<close>: nothing while the cell is empty (the caller blocks).\<close>

definition GetLatestEvent :: "Runner \<Rightarrow> SvelteWatchCheckComplete option" where
  "GetLatestEvent r = Get (latest r)"

fun isFailure :: "SvelteCheckEvent \<Rightarrow> bool" where
  "isFailure (SvelteWatchFailure timestamp message) = True"
| "isFailure _ = False"

section \<open>The request handler for GET /check\<close>

text \<open>
  What the handler does to its \<open>http.ResponseWriter\<close>: the status line is fixed by the first
  \<open>WriteHeader\<close>, or as 200 by the first \<open>Write\<close> (and by the server when the handler
  returns without either). \<open>header\<close> is the header map as the handler sets it.
\<close>

record ResponseWriter =
  status :: "nat option"
  header :: "(string \<times> string) list"
  body :: string

definition newResponseWriter :: ResponseWriter where
  "newResponseWriter = \<lparr>status = None, header = [], body = []\<rparr>"

definition WriteHeader :: "nat \<Rightarrow> ResponseWriter \<Rightarrow> ResponseWriter" where
  "WriteHeader code w = (if status w = None then w\<lparr>status := Some code\<rparr> else w)"

definition HeaderSet :: "string \<Rightarrow> string \<Rightarrow> ResponseWriter \<Rightarrow> ResponseWriter" where
  "HeaderSet k v w = w\<lparr>header := (k, v) # filter (\<lambda>kv. fst kv \<noteq> k) (header w)\<rparr>"

definition Write :: "string \<Rightarrow> ResponseWriter \<Rightarrow> ResponseWriter" where
  "Write data w =
     (let w' = (if status w = None then WriteHeader 200 w else w)
      in w'\<lparr>body := body w' @ data\<rparr>)"

text \<open>The status code the client receives once the handler has returned.\<close>

definition statusCode :: "ResponseWriter \<Rightarrow> nat" where
  "statusCode w = (case status w of None \<Rightarrow> 200 | Some code \<Rightarrow> code)"

text \<open>
  \<open>json.NewEncoder(w).Encode(event)\<close> is a parameter of the model: the encoded text, which is
  written to \<open>w\<close> followed by a line end, or nothing written when encoding fails.
\<close>

type_synonym encoder = "SvelteWatchCheckComplete \<Rightarrow> string option"

text \<open>
  \<^verbatim>\<open>
  func (s *Server) handleCheck(w http.ResponseWriter, r *http.Request) {
      event := s.runner.GetLatestEvent()
      format := r.URL.Query().Get("format")
      if format == "" { format = "human" }
      if event.ErrorCount > 0 { w.WriteHeader(http.StatusInternalServerError) }
      switch format {
      case "json":
          w.Header().Set("Content-Type", "application/json; charset=utf-8")
          _ = json.NewEncoder(w).Encode(event)
      default:
          w.Header().Set("Content-Type", "text/plain; charset=utf-8")
          _, _ = w.Write([]byte(FormatHuman(event)))
      }
  }
  \<close>
  \<open>query\<close> is the value of the query parameter \<open>format\<close>, empty when absent. The result
  is \<open>None\<close> while \<open>GetLatestEvent\<close> blocks.
\<close>

definition handleCheck :: "encoder \<Rightarrow> Runner \<Rightarrow> string \<Rightarrow> ResponseWriter option" where
  "handleCheck enc runner query =
     (case GetLatestEvent runner of
        None \<Rightarrow> None
      | Some event \<Rightarrow>
          Some
           (let format = (if query = [] then ''human'' else query);
                w = newResponseWriter;
                w = (if 0 < sint (ErrorCount event) then WriteHeader 500 w else w)
            in if format = ''json'' then
                 (let w = HeaderSet ''Content-Type'' ''application/json; charset=utf-8'' w
                  in case enc event of
                       None \<Rightarrow> w
                     | Some text \<Rightarrow> Write (text @ [CHR 0x0A]) w)
               else
                 (let w = HeaderSet ''Content-Type'' ''text/plain; charset=utf-8'' w
                  in Write (FormatHuman event) w)))"

section \<open>Route files and the watcher's event loop\<close>

text \<open>\<open>filepath.Base\<close> (Unix): the last element of the path, trailing separators removed.\<close>

definition Base :: "string \<Rightarrow> string" where
  "Base path =
     (if path = [] then ''.''
      else
        let stripped = rev (dropWhile (\<lambda>c. c = CHR ''/'') (rev path));
            element = rev (takeWhile (\<lambda>c. c \<noteq> CHR ''/'') (rev stripped))
        in if element = [] then ''/'' else element)"

text \<open>The Go map \<open>svelteKitRouteFiles\<close>; a key that is absent reads as \<open>false\<close>.\<close>

definition svelteKitRouteFiles :: "string \<rightharpoonup> bool" where
  "svelteKitRouteFiles =
     map_of
      [(''+page.ts'', True),
       (''+page.js'', True),
       (''+page.server.ts'', True),
       (''+page.server.js'', True),
       (''+layout.ts'', True),
       (''+layout.js'', True),
       (''+layout.server.ts'', True),
       (''+layout.server.js'', True),
       (''+server.ts'', True),
       (''+server.js'', True)]"

definition isRouteFile :: "string \<Rightarrow> bool" where
  "isRouteFile filename =
     (case svelteKitRouteFiles (Base filename) of None \<Rightarrow> False | Some b \<Rightarrow> b)"

text \<open>
  \<open>fsnotify.Op\<close> is a set of bits in a \<open>uint32\<close>; \<open>Has\<close> tests whether the bits of an
  operation are set.
\<close>

type_synonym Op = "32 word"

definition Create :: Op where "Create = 1"
definition WriteOp :: Op where "WriteOp = 2"
definition Remove :: Op where "Remove = 4"
definition Rename :: Op where "Rename = 8"
definition Chmod :: Op where "Chmod = 16"

definition Has :: "Op \<Rightarrow> Op \<Rightarrow> bool" where
  "Has ops h = (ops AND h \<noteq> 0)"

record Event =
  Name :: string
  Op :: Op

text \<open>
  What the loop of \<open>Watcher.Start\<close> receives in one turn of its \<open>select\<close>, and what it does:
  the calls it makes, in order, and whether the loop goes on.
\<close>

datatype Received =
    CtxDone
  | HeadChanged
  | BranchChanged
  | FSEvent Event
  | FSEventsClosed
  | FSError string
  | FSErrorsClosed

datatype Call = RestartTrigger | SyncTrigger | Rescan

fun watcherTurn :: "Received \<Rightarrow> Call list \<times> bool" where
  "watcherTurn CtxDone = ([], False)"
| "watcherTurn HeadChanged = ([RestartTrigger], True)"
| "watcherTurn BranchChanged = ([RestartTrigger], True)"
| "watcherTurn (FSEvent event) =
     ((if isRouteFile (Name event) \<and>
          (Has (Op event) Create \<or> Has (Op event) Remove \<or> Has (Op event) Rename)
       then [SyncTrigger] else []) @
      (if Has (Op event) Create then [Rescan] else []),
      True)"
| "watcherTurn FSEventsClosed = ([], False)"
| "watcherTurn (FSError err) = ([], True)"
| "watcherTurn FSErrorsClosed = ([], False)"

text \<open>The ten route file names of the specification.\<close>

definition routeFileNames :: "string list" where
  "routeFileNames =
     [''+page.ts'', ''+page.js'', ''+page.server.ts'', ''+page.server.js'',
      ''+layout.ts'', ''+layout.js'', ''+layout.server.ts'', ''+layout.server.js'',
      ''+server.ts'', ''+server.js'']"

section \<open>Sample snapshots and a sample runner\<close>

text \<open>The diagnostic of scenario S2 of the specification.\<close>

definition sampleDiagnostic :: Diagnostic where
  "sampleDiagnostic =
     \<lparr>Diagnostic.Timestamp = 1770255834342, Type = ''ERROR'', Filename = ''src/lib/u.ts'',
      Start = \<lparr>Line = 0, Character = 38\<rparr>, End = \<lparr>Line = 0, Character = 44\<rparr>,
      Message = ''Cannot find module'', Code = CodeNumber 2307, Source = []\<rparr>"

definition oneError :: SvelteWatchCheckComplete where
  "oneError =
     \<lparr>Timestamp = 1770255834342, Diagnostics = [sampleDiagnostic], FileCount = 100,
      ErrorCount = 1, WarningCount = 0, FilesWithProblems = 1\<rparr>"

definition noErrors :: SvelteWatchCheckComplete where
  "noErrors =
     \<lparr>Timestamp = 1770255834342, Diagnostics = [], FileCount = 100,
      ErrorCount = 0, WarningCount = 0, FilesWithProblems = 0\<rparr>"

definition emptyRunner :: Runner where
  "emptyRunner = \<lparr>latest = None, logged = []\<rparr>"

definition sampleEncoder :: encoder where
  "sampleEncoder event = Some ''{}''"

section \<open>Paths (package path/filepath on Unix)\<close>

text \<open>
  \<open>filepath.Clean\<close> works on the elements between separators: empty elements and \<open>.\<close> are
  dropped, \<open>..\<close> removes the element before it (at the root it is dropped, at the front
  of a relative path it is kept), and the result of an empty path is \<open>.\<close>.
\<close>

fun splitSep :: "string \<Rightarrow> string list" where
  "splitSep [] = [[]]"
| "splitSep (c # cs) =
     (if c = CHR ''/'' then [] # splitSep cs
      else (case splitSep cs of [] \<Rightarrow> [[c]] | x # xs \<Rightarrow> (c # x) # xs))"

fun joinSep :: "string list \<Rightarrow> string" where
  "joinSep [] = []"
| "joinSep [x] = x"
| "joinSep (x # y # ys) = x @ CHR ''/'' # joinSep (y # ys)"

definition IsAbs :: "string \<Rightarrow> bool" where
  "IsAbs path = HasPrefix path ''/''"

text \<open>One element read by \<open>Clean\<close>; \<open>out\<close> holds the elements written so far.\<close>

definition cleanStep :: "bool \<Rightarrow> string list \<Rightarrow> string \<Rightarrow> string list" where
  "cleanStep rooted out c =
     (if c = [] \<or> c = ''.'' then out
      else if c = ''..'' then
        (if out \<noteq> [] \<and> last out \<noteq> ''..'' then butlast out
         else if rooted then out
         else out @ [''..''])
      else out @ [c])"

definition Clean :: "string \<Rightarrow> string" where
  "Clean path =
     (if path = [] then ''.''
      else
        let rooted = IsAbs path;
            out = foldl (cleanStep rooted) [] (splitSep path)
        in if rooted then CHR ''/'' # joinSep out
           else if out = [] then ''.''
           else joinSep out)"

text \<open>\<open>filepath.Join\<close> of two elements: empty elements are ignored, the rest is cleaned.\<close>

definition Join :: "string \<Rightarrow> string \<Rightarrow> string" where
  "Join a b =
     (if a \<noteq> [] then Clean (a @ CHR ''/'' # b)
      else if b \<noteq> [] then Clean b
      else [])"

text \<open>
  What the functions read from the process: the result of \<open>os.Getwd\<close> (a directory or an
  error) and the environment variable \<open>TMPDIR\<close>, empty when unset.
\<close>

datatype error = GetwdError

record Process =
  Getwd :: "error + string"
  TMPDIR :: string

definition TempDir :: "Process \<Rightarrow> string" where
  "TempDir env = (if TMPDIR env = [] then ''/tmp'' else TMPDIR env)"

definition Abs :: "Process \<Rightarrow> string \<Rightarrow> error + string" where
  "Abs env path =
     (if IsAbs path then Inr (Clean path)
      else case Getwd env of
             Inl err \<Rightarrow> Inl err
           | Inr wd \<Rightarrow> Inr (Join wd path))"

text \<open>\<open>strings.ReplaceAll\<close> for one byte replaced by one byte.\<close>

definition ReplaceAll :: "string \<Rightarrow> char \<Rightarrow> char \<Rightarrow> string" where
  "ReplaceAll s old new = map (\<lambda>c. if c = old then new else c) s"

section \<open>The socket path of a workspace\<close>

text \<open>
  \<^verbatim>\<open>
  func SocketPathForWorkspace(workspacePath string) (string, error) {
      absPath, err := filepath.Abs(workspacePath)
      if err != nil { return "", err }
      absPath = filepath.Clean(absPath)
      slug := strings.TrimPrefix(absPath, string(os.PathSeparator))
      slug = strings.ReplaceAll(slug, string(os.PathSeparator), "-")
      return filepath.Join(os.TempDir(), slug+"-svelte-check.sock"), nil
  }
  \<close>
\<close>

definition SocketPathForWorkspace :: "Process \<Rightarrow> string \<Rightarrow> error + string" where
  "SocketPathForWorkspace env workspacePath =
     (case Abs env workspacePath of
        Inl err \<Rightarrow> Inl err
      | Inr absPath \<Rightarrow>
          (let absPath = Clean absPath;
               slug = TrimPrefix absPath ''/'';
               slug = ReplaceAll slug CHR ''/'' CHR ''-''
           in Inr (Join (TempDir env) (slug @ ''-svelte-check.sock''))))"

text \<open>A process in the directory \<open>/home/user\<close> with \<open>TMPDIR\<close> unset.\<close>

definition sampleProcess :: Process where
  "sampleProcess = \<lparr>Getwd = Inr ''/home/user'', TMPDIR = []\<rparr>"

text \<open>An element that \<open>Clean\<close> copies: not empty, not \<open>.\<close>, not \<open>..\<close>, without separator.\<close>

definition isReal :: "string \<Rightarrow> bool" where
  "isReal c = (c \<noteq> [] \<and> c \<noteq> ''.'' \<and> c \<noteq> ''..'' \<and> CHR ''/'' \<notin> set c)"

text \<open>The cleaned directory \<open>t\<close> with the separator that precedes a file name joined to it.\<close>

definition cleanDir :: "string \<Rightarrow> string" where
  "cleanDir t =
     (let out = foldl (cleanStep (IsAbs t)) [] (splitSep t)
      in (if IsAbs t then ''/'' else []) @ (if out = [] then [] else joinSep out @ ''/''))"

text \<open>\<open>os.Getwd\<close> returns an absolute path when it returns one.\<close>

definition wellFormed :: "Process \<Rightarrow> bool" where
  "wellFormed env = (case Getwd env of Inl err \<Rightarrow> True | Inr wd \<Rightarrow> IsAbs wd)"

section \<open>The watcher limit\<close>

text \<open>
  \<^verbatim>\<open>
  const MaxWatchers = 100
  var globalWatcherCount atomic.Int32

  func acquireWatcher() error {
      for {
          current := globalWatcherCount.Load()
          if current >= MaxWatchers { return ErrTooManyWatchers }
          if globalWatcherCount.CompareAndSwap(current, current+1) { return nil }
      }
  }

  func releaseWatcher() { globalWatcherCount.Add(-1) }

  func NewRealFSWatcher() (*RealFSWatcher, error) {
      if err := acquireWatcher(); err != nil { return nil, err }
      w, err := fsnotify.NewWatcher()
      if err != nil { releaseWatcher(); return nil, err }
      return &RealFSWatcher{watcher: w}, nil
  }

  func (r *RealFSWatcher) Close() error { releaseWatcher(); return r.watcher.Close() }
  \<close>
  \<open>NewRealGitBranchWatcher\<close> and its \<open>Close\<close> use the counter in the same way.

  The counter is shared by all goroutines. Each atomic operation on it is one step of the
  goroutine that makes it, and the steps of the goroutines interleave in any order. A
  goroutine creates a watcher and closes it once; where it stands is its \<open>Place\<close>:
  before the \<open>Load\<close> (at the head of the loop), between the \<open>Load\<close> and the
  \<open>CompareAndSwap\<close> with the value loaded, after \<open>acquireWatcher\<close> has returned nil,
  holding an open watcher, returned with an error, or after \<open>Close\<close>.
\<close>

type_synonym int32 = "32 word"

definition MaxWatchers :: int32 where
  "MaxWatchers = 100"

datatype WatcherError = ErrTooManyWatchers | NewWatcherError

datatype Place =
    AtLoad
  | AtCompareAndSwap int32
  | Acquired
  | Opened
  | Returned WatcherError
  | Closed

record World =
  globalWatcherCount :: int32
  goroutines :: "Place list"

text \<open>
  One atomic step inside \<open>acquireWatcher\<close>, on the counter \<open>count\<close>: the \<open>Load\<close> with the
  test against the limit, or the \<open>CompareAndSwap\<close>, which sends the goroutine back to the
  head of the loop when the counter has changed since the \<open>Load\<close>.
\<close>

fun acquireWatcher :: "int32 \<Rightarrow> Place \<Rightarrow> int32 \<times> Place" where
  "acquireWatcher count AtLoad =
     (let current = count
      in if sint current \<ge> sint MaxWatchers then (count, Returned ErrTooManyWatchers)
         else (count, AtCompareAndSwap current))"
| "acquireWatcher count (AtCompareAndSwap current) =
     (if count = current then (current + 1, Acquired) else (count, AtLoad))"
| "acquireWatcher count place = (count, place)"

definition releaseWatcher :: "int32 \<Rightarrow> int32" where
  "releaseWatcher count = count + (- 1)"

text \<open>
  One step of goroutine \<open>i\<close>. \<open>ok\<close> tells whether \<open>fsnotify.NewWatcher\<close> succeeds when this
  step calls it. A goroutine that has returned or closed may create another watcher.
\<close>

definition goroutineStep :: "bool \<Rightarrow> nat \<Rightarrow> World \<Rightarrow> World" where
  "goroutineStep ok i w =
     (if i \<ge> length (goroutines w) then w
      else case goroutines w ! i of
        AtLoad \<Rightarrow>
          (case acquireWatcher (globalWatcherCount w) AtLoad of
             (count, place) \<Rightarrow>
               w\<lparr>globalWatcherCount := count, goroutines := (goroutines w)[i := place]\<rparr>)
      | AtCompareAndSwap current \<Rightarrow>
          (case acquireWatcher (globalWatcherCount w) (AtCompareAndSwap current) of
             (count, place) \<Rightarrow>
               w\<lparr>globalWatcherCount := count, goroutines := (goroutines w)[i := place]\<rparr>)
      | Acquired \<Rightarrow>
          (if ok then w\<lparr>goroutines := (goroutines w)[i := Opened]\<rparr>
           else w\<lparr>globalWatcherCount := releaseWatcher (globalWatcherCount w),
                  goroutines := (goroutines w)[i := Returned NewWatcherError]\<rparr>)
      | Opened \<Rightarrow>
          w\<lparr>globalWatcherCount := releaseWatcher (globalWatcherCount w),
            goroutines := (goroutines w)[i := Closed]\<rparr>
      | Returned err \<Rightarrow> w\<lparr>goroutines := (goroutines w)[i := AtLoad]\<rparr>
      | Closed \<Rightarrow> w\<lparr>goroutines := (goroutines w)[i := AtLoad]\<rparr>)"

text \<open>A schedule names, step by step, the goroutine that moves and the outcome of \<open>NewWatcher\<close>.\<close>

definition runSchedule :: "(bool \<times> nat) list \<Rightarrow> World \<Rightarrow> World" where
  "runSchedule sched w = foldl (\<lambda>w (ok, i). goroutineStep ok i w) w sched"

text \<open>The process starts with the counter at zero and \<open>n\<close> goroutines that have not begun.\<close>

definition startWorld :: "nat \<Rightarrow> World" where
  "startWorld n = \<lparr>globalWatcherCount = 0, goroutines = replicate n AtLoad\<rparr>"

text \<open>The goroutines that have acquired a watcher and not yet released it.\<close>

fun holding :: "Place \<Rightarrow> bool" where
  "holding Acquired = True"
| "holding Opened = True"
| "holding _ = False"

definition holders :: "Place list \<Rightarrow> nat" where
  "holders ps = length (filter holding ps)"

fun loadedBelowLimit :: "Place \<Rightarrow> bool" where
  "loadedBelowLimit (AtCompareAndSwap current) = (sint current < sint MaxWatchers)"
| "loadedBelowLimit _ = True"

definition countInvariant :: "World \<Rightarrow> bool" where
  "countInvariant w =
     (sint (globalWatcherCount w) = int (holders (goroutines w)) \<and>
      holders (goroutines w) \<le> 100 \<and>
      list_all loadedBelowLimit (goroutines w))"

text \<open>A world at the limit, and a schedule in which two goroutines race for the counter.\<close>

definition fullWorld :: World where
  "fullWorld = \<lparr>globalWatcherCount = 100, goroutines = [AtLoad]\<rparr>"

definition raceSchedule :: "(bool \<times> nat) list" where
  "raceSchedule = [(True, 0), (True, 1), (True, 0), (True, 1), (True, 1), (True, 1)]"

text \<open>A world in which the counter has moved on since goroutine 0 loaded it.\<close>

definition staleWorld :: World where
  "staleWorld = \<lparr>globalWatcherCount = 1, goroutines = [AtCompareAndSwap 0]\<rparr>"

section \<open>Verified properties\<close>

subsection \<open>The HEAD parser\<close>

lemma set_TrimLeftSpace: "set (TrimLeftSpace s) \<subseteq> set s"
proof (induction s rule: TrimLeftSpace.induct)
  case (1 s)
  show ?case
  proof (cases "spaceWidth s = 0")
    case True
    then show ?thesis by (subst TrimLeftSpace.simps) simp
  next
    case False
    with 1 have "set (TrimLeftSpace (drop (spaceWidth s) s)) \<subseteq> set (drop (spaceWidth s) s)"
      by simp
    also have "\<dots> \<subseteq> set s" by (rule set_drop_subset)
    finally show ?thesis using False by (subst TrimLeftSpace.simps) simp
  qed
qed

lemma set_TrimRightSpace: "set (TrimRightSpace s) \<subseteq> set s"
proof (induction s rule: TrimRightSpace.induct)
  case (1 s)
  show ?case
  proof (cases "lastSpaceWidth s = 0")
    case True
    then show ?thesis by (subst TrimRightSpace.simps) simp
  next
    case False
    with 1 have "set (TrimRightSpace (take (length s - lastSpaceWidth s) s))
        \<subseteq> set (take (length s - lastSpaceWidth s) s)"
      by simp
    also have "\<dots> \<subseteq> set s" by (rule set_take_subset)
    finally show ?thesis using False by (subst TrimRightSpace.simps) simp
  qed
qed

lemma set_TrimSpace: "set (TrimSpace s) \<subseteq> set s"
  unfolding TrimSpace_def using set_TrimRightSpace set_TrimLeftSpace by blast

text \<open>
  Claim C2, amended. \<open>parseGitHeadRef\<close> trims white space on both sides of the content
  (\<open>strings.TrimSpace\<close>), not only at its end. When the trimmed content begins with the
  literal prefix \<open>ref: \<close> the result is the remainder after the prefix; for any other
  content the result is the empty string, and so it is for a raw commit hash (a detached
  HEAD).
\<close>

theorem parseGitHeadRef_trimmed_prefix:
  "(HasPrefix (TrimSpace content) ''ref: '' \<longrightarrow>
      TrimSpace content = ''ref: '' @ parseGitHeadRef content) \<and>
   (\<not> HasPrefix (TrimSpace content) ''ref: '' \<longrightarrow> parseGitHeadRef content = []) \<and>
   (list_all isHashByte content \<longrightarrow> parseGitHeadRef content = [])"
proof (intro conjI impI)
  assume "HasPrefix (TrimSpace content) ''ref: ''"
  then show "TrimSpace content = ''ref: '' @ parseGitHeadRef content"
    by (auto simp: parseGitHeadRef_def HasPrefix_def TrimPrefix_def prefix_def)
next
  assume "\<not> HasPrefix (TrimSpace content) ''ref: ''"
  then show "parseGitHeadRef content = []"
    by (simp add: parseGitHeadRef_def)
next
  assume h: "list_all isHashByte content"
  have "\<not> HasPrefix (TrimSpace content) ''ref: ''"
  proof
    assume "HasPrefix (TrimSpace content) ''ref: ''"
    then have "CHR ''r'' \<in> set (TrimSpace content)"
      by (auto simp: HasPrefix_def prefix_def)
    with set_TrimSpace have "CHR ''r'' \<in> set content" by blast
    with h have "isHashByte CHR ''r''" by (simp add: list_all_iff)
    then show False by (simp add: isHashByte_def)
  qed
  then show "parseGitHeadRef content = []"
    by (simp add: parseGitHeadRef_def)
qed

theorem parseGitHeadRef_trimmed_prefix_witness:
  "HasPrefix (TrimSpace ''ref: refs/heads/main\<newline>'') ''ref: '' \<and>
   parseGitHeadRef ''ref: refs/heads/main\<newline>'' = ''refs/heads/main'' \<and>
   list_all isHashByte ''a1b2c3d4e5f6a1b2c3d4e5f6a1b2c3d4e5f6a1b2\<newline>'' \<and>
   parseGitHeadRef ''a1b2c3d4e5f6a1b2c3d4e5f6a1b2c3d4e5f6a1b2\<newline>'' = []"
proof -
  have t: "TrimSpace ''ref: refs/heads/main\<newline>'' = ''ref: refs/heads/main''"
    by code_simp
  have p: "HasPrefix (TrimSpace ''ref: refs/heads/main\<newline>'') ''ref: ''"
    unfolding t by (simp add: HasPrefix_def)
  have h: "list_all isHashByte ''a1b2c3d4e5f6a1b2c3d4e5f6a1b2c3d4e5f6a1b2\<newline>''"
    by (simp add: isHashByte_def)
  from parseGitHeadRef_trimmed_prefix [of "''ref: refs/heads/main\<newline>''"] p t
  have "parseGitHeadRef ''ref: refs/heads/main\<newline>'' = ''refs/heads/main''"
    by simp
  moreover from parseGitHeadRef_trimmed_prefix
      [of "''a1b2c3d4e5f6a1b2c3d4e5f6a1b2c3d4e5f6a1b2\<newline>''"] h
  have "parseGitHeadRef ''a1b2c3d4e5f6a1b2c3d4e5f6a1b2c3d4e5f6a1b2\<newline>'' = []"
    by blast
  ultimately show ?thesis using p h by blast
qed

text \<open>
  Claim C2 as stated trims trailing white space only. With a leading space the content so
  trimmed does not begin with \<open>ref: \<close>, and the parser still returns the ref path.
\<close>

theorem parseGitHeadRef_leading_space_counterexample:
  "\<not> HasPrefix (TrimRightSpace '' ref: refs/heads/main\<newline>'') ''ref: '' \<and>
   parseGitHeadRef '' ref: refs/heads/main\<newline>'' = ''refs/heads/main''"
proof -
  have "TrimRightSpace '' ref: refs/heads/main\<newline>'' = '' ref: refs/heads/main''"
    by code_simp
  moreover have "parseGitHeadRef '' ref: refs/heads/main\<newline>'' = ''refs/heads/main''"
    by code_simp
  ultimately show ?thesis by (simp add: HasPrefix_def)
qed

subsection \<open>Human rendering\<close>

lemma showInt_decimal: "showInt i = decimal (sint i)"
  by (simp add: showInt_def decimal_def)

text \<open>Below the largest \<open>int\<close> the addition of 1 to a position does not wrap.\<close>

lemma position_one_based: "sint (x :: int64) < maxInt64 \<Longrightarrow> sint (x + 1) = sint x + 1"
proof -
  assume a: "sint x < maxInt64"
  have lo: "- (2 ^ 63) \<le> sint x" using sint_ge [of x] by simp
  have "sint (x + 1) = signed_take_bit 63 (sint x + 1)"
    by (simp add: sint_word_ariths)
  also have "\<dots> = sint x + 1"
    using a lo by (intro signed_take_bit_int_eq_self) (simp_all add: maxInt64_def)
  finally show ?thesis .
qed

lemma writeDiagnostic_line:
  "sint (Line (Start d)) < maxInt64 \<Longrightarrow> sint (Character (Start d)) < maxInt64 \<Longrightarrow>
     writeDiagnostic sb d = sb @ diagnosticLine d"
  by (simp add: writeDiagnostic_def diagnosticLine_def showInt_decimal position_one_based)

lemma foldl_writeDiagnostic:
  "list_all (\<lambda>d. sint (Line (Start d)) < maxInt64 \<and> sint (Character (Start d)) < maxInt64) ds \<Longrightarrow>
     foldl writeDiagnostic sb ds = sb @ concat (map diagnosticLine ds)"
  by (induction ds arbitrary: sb) (simp_all add: writeDiagnostic_line)

text \<open>
  Claim C7, amended. For every snapshot whose diagnostics start at a line and a character
  below the largest \<open>int\<close>, \<open>FormatHuman\<close> writes one line per diagnostic, in the order of the
  slice, as \<open><filename>:<line+1>:<character+1> - <SEVERITY>: <message>\<close> with the one-based
  positions, then an empty line and the summary line
  \<open>svelte-check: <errorCount> errors, <warningCount> warnings (<fileCount> files checked)\<close>;
  a snapshot without diagnostics is rendered as the single line
  \<open>svelte-check found no issues (<fileCount> files checked)\<close>.
\<close>

theorem FormatHuman_renders_one_based:
  assumes "positionsBelowMax event"
  shows "FormatHuman event =
     (if Diagnostics event = [] then noIssuesLine event
      else concat (map diagnosticLine (Diagnostics event)) @ [CHR 0x0A] @ summaryLine event)"
  using assms
  by (simp add: FormatHuman_def positionsBelowMax_def foldl_writeDiagnostic noIssuesLine_def
      summaryLine_def showInt_decimal)

theorem FormatHuman_renders_one_based_witness:
  "positionsBelowMax oneError \<and> positionsBelowMax noErrors \<and>
   FormatHuman oneError =
     ''src/lib/u.ts:1:39 - ERROR: Cannot find module'' @ [CHR 0x0A, CHR 0x0A] @
     ''svelte-check: 1 errors, 0 warnings (100 files checked)'' @ [CHR 0x0A] \<and>
   FormatHuman noErrors = ''svelte-check found no issues (100 files checked)'' @ [CHR 0x0A]"
proof -
  have p1: "positionsBelowMax oneError" by code_simp
  have p0: "positionsBelowMax noErrors" by code_simp
  have d1: "Diagnostics oneError = [sampleDiagnostic]" by (simp add: oneError_def)
  have d0: "Diagnostics noErrors = []" by (simp add: noErrors_def)
  have l: "diagnosticLine sampleDiagnostic =
      ''src/lib/u.ts:1:39 - ERROR: Cannot find module'' @ [CHR 0x0A]"
    by code_simp
  have s: "summaryLine oneError =
      ''svelte-check: 1 errors, 0 warnings (100 files checked)'' @ [CHR 0x0A]"
    by code_simp
  have n: "noIssuesLine noErrors =
      ''svelte-check found no issues (100 files checked)'' @ [CHR 0x0A]"
    by code_simp
  from FormatHuman_renders_one_based [OF p1] d1 l s
  have 1: "FormatHuman oneError =
     ''src/lib/u.ts:1:39 - ERROR: Cannot find module'' @ [CHR 0x0A, CHR 0x0A] @
     ''svelte-check: 1 errors, 0 warnings (100 files checked)'' @ [CHR 0x0A]"
    by simp
  from FormatHuman_renders_one_based [OF p0] d0 n
  have 0: "FormatHuman noErrors =
      ''svelte-check found no issues (100 files checked)'' @ [CHR 0x0A]"
    by simp
  from p1 p0 1 0 show ?thesis by blast
qed

text \<open>
  Claim C7 as stated fails for a diagnostic at the largest line number an \<open>int\<close> holds:
  the addition wraps, and \<open>FormatHuman\<close> writes the smallest \<open>int\<close> where the one-based line
  is 9223372036854775808.
\<close>

theorem FormatHuman_wraps_counterexample:
  "FormatHuman lastLineSnapshot =
     ''u.ts:-9223372036854775808:1 - ERROR: Bad'' @ [CHR 0x0A, CHR 0x0A] @
     ''svelte-check: 1 errors, 0 warnings (1 files checked)'' @ [CHR 0x0A] \<and>
   concat (map diagnosticLine (Diagnostics lastLineSnapshot)) @ [CHR 0x0A] @
     summaryLine lastLineSnapshot =
     ''u.ts:9223372036854775808:1 - ERROR: Bad'' @ [CHR 0x0A, CHR 0x0A] @
     ''svelte-check: 1 errors, 0 warnings (1 files checked)'' @ [CHR 0x0A] \<and>
   Diagnostics lastLineSnapshot \<noteq> []"
  by code_simp

subsection \<open>The interpreter\<close>

lemma parseUintLoop_syntax: "snd (parseUintLoop n s) = Some ErrSyntax \<Longrightarrow> fst (parseUintLoop n s) = 0"
  by (induction s arbitrary: n) (auto split: if_splits)




































subsection \<open>Route files\<close>

lemma isRouteFile_iff: "isRouteFile filename \<longleftrightarrow> Base filename \<in> set routeFileNames"
proof -
  have "\<And>k. (case svelteKitRouteFiles k of None \<Rightarrow> False | Some b \<Rightarrow> b) \<longleftrightarrow> k \<in> set routeFileNames"
    by (simp add: svelteKitRouteFiles_def routeFileNames_def)
  then show ?thesis by (simp add: isRouteFile_def)
qed

text \<open>
  Claim C4. In the event loop of the watcher, an FS event triggers the sync debouncer if
  and only if the basename of its name is one of the ten route file names and its
  operation includes Create, Remove or Rename. The basenames \<open>+page.svelte\<close>,
  \<open>+pages.ts\<close>, \<open>+pageserver.ts\<close>, \<open>page.ts\<close>, \<open>+page.d.ts\<close> and \<open>+page.tsx\<close> never
  trigger it, whatever the operation, and neither does an operation that is Write alone.
\<close>

theorem sync_trigger_iff_route_file:
  "(SyncTrigger \<in> set (fst (watcherTurn (FSEvent event))) \<longleftrightarrow>
      Base (Name event) \<in> set routeFileNames \<and>
      (Has (Op event) Create \<or> Has (Op event) Remove \<or> Has (Op event) Rename)) \<and>
   (\<forall>name ops. Base name \<in> set [''+page.svelte'', ''+pages.ts'', ''+pageserver.ts'',
                                  ''page.ts'', ''+page.d.ts'', ''+page.tsx''] \<longrightarrow>
      SyncTrigger \<notin> set (fst (watcherTurn (FSEvent \<lparr>Name = name, Op = ops\<rparr>)))) \<and>
   (\<forall>name. SyncTrigger \<notin> set (fst (watcherTurn (FSEvent \<lparr>Name = name, Op = WriteOp\<rparr>))))"
proof (intro conjI allI impI)
  show "SyncTrigger \<in> set (fst (watcherTurn (FSEvent event))) \<longleftrightarrow>
      Base (Name event) \<in> set routeFileNames \<and>
      (Has (Op event) Create \<or> Has (Op event) Remove \<or> Has (Op event) Rename)"
    by (simp add: isRouteFile_iff)
next
  fix name ops
  assume "Base name \<in> set [''+page.svelte'', ''+pages.ts'', ''+pageserver.ts'',
                                  ''page.ts'', ''+page.d.ts'', ''+page.tsx'']"
  then have "Base name \<notin> set routeFileNames"
    by (auto simp: routeFileNames_def)
  then show "SyncTrigger \<notin> set (fst (watcherTurn (FSEvent \<lparr>Name = name, Op = ops\<rparr>)))"
    by (simp add: isRouteFile_iff)
next
  fix name
  have "\<not> Has WriteOp Create" "\<not> Has WriteOp Remove" "\<not> Has WriteOp Rename"
    by (simp_all add: Has_def WriteOp_def Create_def Remove_def Rename_def)
  then show "SyncTrigger \<notin> set (fst (watcherTurn (FSEvent \<lparr>Name = name, Op = WriteOp\<rparr>)))"
    by simp
qed

theorem sync_trigger_iff_route_file_witness:
  "Base ''/ws/src/routes/+page.ts'' \<in> set routeFileNames \<and>
   Has (Create OR WriteOp) Create \<and>
   SyncTrigger \<in> set (fst (watcherTurn (FSEvent \<lparr>Name = ''/ws/src/routes/+page.ts'', Op = Create OR WriteOp\<rparr>))) \<and>
   Base ''/ws/src/routes/+page.svelte'' = ''+page.svelte'' \<and>
   SyncTrigger \<notin> set (fst (watcherTurn (FSEvent \<lparr>Name = ''/ws/src/routes/+page.svelte'', Op = Create\<rparr>))) \<and>
   SyncTrigger \<notin> set (fst (watcherTurn (FSEvent \<lparr>Name = ''/ws/src/routes/+page.ts'', Op = WriteOp\<rparr>)))"
proof -
  have b: "Base ''/ws/src/routes/+page.ts'' \<in> set routeFileNames" by code_simp
  have c: "Has (Create OR WriteOp) Create" by code_simp
  have s: "Base ''/ws/src/routes/+page.svelte'' = ''+page.svelte''" by code_simp
  note t = sync_trigger_iff_route_file
      [of "\<lparr>Name = ''/ws/src/routes/+page.ts'', Op = Create OR WriteOp\<rparr>"]
  from t b c have 1: "SyncTrigger \<in> set (fst (watcherTurn
      (FSEvent \<lparr>Name = ''/ws/src/routes/+page.ts'', Op = Create OR WriteOp\<rparr>)))"
    by simp
  from t s have 2: "SyncTrigger \<notin> set (fst (watcherTurn
      (FSEvent \<lparr>Name = ''/ws/src/routes/+page.svelte'', Op = Create\<rparr>)))"
    by simp
  from t have 3: "SyncTrigger \<notin> set (fst (watcherTurn
      (FSEvent \<lparr>Name = ''/ws/src/routes/+page.ts'', Op = WriteOp\<rparr>)))"
    by blast
  from b c s 1 2 3 show ?thesis by blast
qed

subsection \<open>The request handler\<close>

lemma statusCode_Write: "statusCode (Write data w) = statusCode w"
  by (simp add: statusCode_def Write_def WriteHeader_def Let_def split: option.splits)

lemma statusCode_HeaderSet: "statusCode (HeaderSet k v w) = statusCode w"
  by (simp add: statusCode_def HeaderSet_def)

text \<open>
  Claim C5. A GET /check request whose handler has obtained the snapshot from
  \<open>GetLatestEvent\<close> is answered with status 500 if and only if the \<open>ErrorCount\<close> of the
  snapshot is greater than 0, and with status 200 otherwise, whatever the requested format
  and whether or not the JSON encoding succeeds.
\<close>

theorem handleCheck_status:
  assumes "GetLatestEvent runner = Some event"
  shows "\<exists>w. handleCheck enc runner query = Some w \<and>
             statusCode w = (if 0 < sint (ErrorCount event) then 500 else 200)"
proof -
  have "statusCode (WriteHeader 500 newResponseWriter) = 500"
    by (simp add: statusCode_def WriteHeader_def newResponseWriter_def)
  moreover have "statusCode newResponseWriter = 200"
    by (simp add: statusCode_def newResponseWriter_def)
  ultimately show ?thesis using assms
    by (simp add: handleCheck_def Let_def statusCode_Write statusCode_HeaderSet
        split: option.splits)
qed

theorem handleCheck_status_witness:
  "GetLatestEvent (emptyRunner\<lparr>latest := Some oneError\<rparr>) = Some oneError \<and>
   0 < sint (ErrorCount oneError) \<and>
   (\<exists>w. handleCheck sampleEncoder (emptyRunner\<lparr>latest := Some oneError\<rparr>) ''json'' = Some w \<and>
        statusCode w = 500) \<and>
   GetLatestEvent (emptyRunner\<lparr>latest := Some noErrors\<rparr>) = Some noErrors \<and>
   \<not> 0 < sint (ErrorCount noErrors) \<and>
   (\<exists>w. handleCheck sampleEncoder (emptyRunner\<lparr>latest := Some noErrors\<rparr>) [] = Some w \<and>
        statusCode w = 200)"
proof -
  have g1: "GetLatestEvent (emptyRunner\<lparr>latest := Some oneError\<rparr>) = Some oneError"
    by (simp add: GetLatestEvent_def Get_def)
  have g0: "GetLatestEvent (emptyRunner\<lparr>latest := Some noErrors\<rparr>) = Some noErrors"
    by (simp add: GetLatestEvent_def Get_def)
  have e1: "0 < sint (ErrorCount oneError)" by (simp add: oneError_def)
  have e0: "\<not> 0 < sint (ErrorCount noErrors)" by (simp add: noErrors_def)
  from handleCheck_status [OF g1, of sampleEncoder "''json''"] e1
  have 1: "\<exists>w. handleCheck sampleEncoder (emptyRunner\<lparr>latest := Some oneError\<rparr>) ''json'' = Some w \<and>
        statusCode w = 500"
    by simp
  from handleCheck_status [OF g0, of sampleEncoder "[]"] e0
  have 2: "\<exists>w. handleCheck sampleEncoder (emptyRunner\<lparr>latest := Some noErrors\<rparr>) [] = Some w \<and>
        statusCode w = 200"
    by simp
  from g1 g0 e1 e0 1 2 show ?thesis by blast
qed

subsection \<open>The event consumer\<close>

lemma handleEvents_snoc: "handleEvents r (evs @ [ev]) = handleEvent (handleEvents r evs) ev"
  by (simp add: handleEvents_def)

lemma handleEvents_failures: "list_all isFailure evs \<Longrightarrow> latest (handleEvents r evs) = latest r"
proof (induction evs rule: rev_induct)
  case Nil
  show ?case by (simp add: handleEvents_def)
next
  case (snoc ev evs)
  then show ?case by (cases ev) (simp_all add: handleEvents_snoc)
qed

text \<open>
  Claim C6. The event consumer of the runner invalidates the snapshot on
  \<open>SvelteWatchCheckStart\<close>, sets it to the event on \<open>SvelteWatchCheckComplete\<close> and leaves it
  unchanged on \<open>SvelteWatchFailure\<close>, which is logged only. The cell holds values of type
  \<open>SvelteWatchCheckComplete\<close> only. So after any sequence of events the snapshot is the
  last complete event when only failures follow it, is empty when only failures follow the
  last start, and is what it was before when the sequence holds failures only.
\<close>

theorem snapshot_reflects_last_complete:
  "latest (handleEvent r (SvelteWatchCheckStart timestamp workspace)) = Invalidate (latest r) \<and>
   latest (handleEvent r (CheckComplete e)) = Set e (latest r) \<and>
   latest (handleEvent r (SvelteWatchFailure timestamp message)) = latest r \<and>
   logged (handleEvent r (SvelteWatchFailure timestamp message)) =
     logged r @ [''svelte-check failure: '' @ message] \<and>
   (list_all isFailure later \<longrightarrow>
      GetLatestEvent (handleEvents r (earlier @ CheckComplete e # later)) = Some e) \<and>
   (list_all isFailure later \<longrightarrow>
      GetLatestEvent (handleEvents r (earlier @ SvelteWatchCheckStart timestamp workspace # later)) = None) \<and>
   (list_all isFailure later \<longrightarrow>
      GetLatestEvent (handleEvents r later) = GetLatestEvent r)"
proof (intro conjI impI)
  assume f: "list_all isFailure later"
  have "handleEvents r (earlier @ CheckComplete e # later) =
      handleEvents (handleEvent (handleEvents r earlier) (CheckComplete e)) later"
    by (simp add: handleEvents_def)
  with f show "GetLatestEvent (handleEvents r (earlier @ CheckComplete e # later)) = Some e"
    by (simp add: GetLatestEvent_def Get_def handleEvents_failures Set_def)
  have "handleEvents r (earlier @ SvelteWatchCheckStart timestamp workspace # later) =
      handleEvents (handleEvent (handleEvents r earlier) (SvelteWatchCheckStart timestamp workspace)) later"
    by (simp add: handleEvents_def)
  with f show "GetLatestEvent (handleEvents r (earlier @ SvelteWatchCheckStart timestamp workspace # later)) = None"
    by (simp add: GetLatestEvent_def Get_def handleEvents_failures Invalidate_def)
  from f show "GetLatestEvent (handleEvents r later) = GetLatestEvent r"
    by (simp add: GetLatestEvent_def handleEvents_failures)
qed simp_all

theorem snapshot_reflects_last_complete_witness:
  "list_all isFailure [SvelteWatchFailure 3 ''Connection closed''] \<and>
   GetLatestEvent (handleEvents emptyRunner
     ([SvelteWatchCheckStart 1 ''/ws''] @ CheckComplete oneError #
      [SvelteWatchFailure 3 ''Connection closed''])) = Some oneError \<and>
   GetLatestEvent (handleEvents emptyRunner
     ([CheckComplete oneError] @ SvelteWatchCheckStart 4 ''/ws'' #
      [SvelteWatchFailure 3 ''Connection closed''])) = None"
proof -
  have f: "list_all isFailure [SvelteWatchFailure 3 ''Connection closed'']" by simp
  note t = snapshot_reflects_last_complete [of emptyRunner _ _ _ _
      "[SvelteWatchFailure 3 ''Connection closed'']"]
  from t [of 0 "[]" oneError "[]" "[SvelteWatchCheckStart 1 ''/ws'']"] f
  have 1: "GetLatestEvent (handleEvents emptyRunner
     ([SvelteWatchCheckStart 1 ''/ws''] @ CheckComplete oneError #
      [SvelteWatchFailure 3 ''Connection closed''])) = Some oneError"
    by blast
  from t [of 4 "''/ws''" oneError "[]" "[CheckComplete oneError]"] f
  have 2: "GetLatestEvent (handleEvents emptyRunner
     ([CheckComplete oneError] @ SvelteWatchCheckStart 4 ''/ws'' #
      [SvelteWatchFailure 3 ''Connection closed''])) = None"
    by blast
  from f 1 2 show ?thesis by blast
qed

subsection \<open>The socket path\<close>

lemma splitSep_nonempty [simp]: "splitSep s \<noteq> []"
  by (induction s) (auto split: list.splits)

lemma splitSep_no_sep: "CHR ''/'' \<notin> set s \<Longrightarrow> splitSep s = [s]"
  by (induction s) auto

lemma splitSep_append_sep: "splitSep (a @ CHR ''/'' # b) = splitSep a @ splitSep b"
  by (induction a) (auto split: list.splits)

lemma splitSep_elements: "c \<in> set (splitSep s) \<Longrightarrow> CHR ''/'' \<notin> set c"
  by (induction s arbitrary: c) (auto split: list.splits if_splits)

lemma splitSep_joinSep:
  "out \<noteq> [] \<Longrightarrow> \<forall>c \<in> set out. CHR ''/'' \<notin> set c \<Longrightarrow> splitSep (joinSep out) = out"
  by (induction out rule: joinSep.induct) (simp_all add: splitSep_no_sep splitSep_append_sep)

lemma joinSep_snoc: "joinSep (out @ [n]) = (if out = [] then n else joinSep out @ CHR ''/'' # n)"
  by (induction out rule: joinSep.induct) simp_all

lemma cleanStep_real: "isReal c \<Longrightarrow> cleanStep rooted out c = out @ [c]"
  by (simp add: cleanStep_def isReal_def)

lemma foldl_cleanStep_real:
  "list_all isReal cs \<Longrightarrow> foldl (cleanStep rooted) out cs = out @ cs"
  by (induction cs arbitrary: out) (simp_all add: cleanStep_real)

lemma cleanStep_rooted_real:
  "list_all isReal out \<Longrightarrow> CHR ''/'' \<notin> set c \<Longrightarrow> list_all isReal (cleanStep True out c)"
  by (auto simp: cleanStep_def isReal_def list_all_iff dest: in_set_butlastD)

lemma foldl_cleanStep_rooted_real:
  "list_all isReal out \<Longrightarrow> \<forall>c \<in> set cs. CHR ''/'' \<notin> set c \<Longrightarrow>
     list_all isReal (foldl (cleanStep True) out cs)"
  by (induction cs arbitrary: out) (simp_all add: cleanStep_rooted_real)

lemma Clean_rooted:
  assumes "IsAbs X"
  shows "\<exists>out. Clean X = CHR ''/'' # joinSep out \<and> list_all isReal out"
proof -
  from assms have ne: "X \<noteq> []" by (auto simp: IsAbs_def HasPrefix_def)
  let ?out = "foldl (cleanStep True) [] (splitSep X)"
  have "list_all isReal ?out"
    by (rule foldl_cleanStep_rooted_real) (auto dest: splitSep_elements)
  moreover from assms ne have "Clean X = CHR ''/'' # joinSep ?out"
    by (simp add: Clean_def)
  ultimately show ?thesis by blast
qed

lemma Clean_joined:
  assumes "list_all isReal out"
  shows "Clean (CHR ''/'' # joinSep out) = CHR ''/'' # joinSep out"
proof (cases "out = []")
  case True
  then show ?thesis by (simp add: Clean_def IsAbs_def HasPrefix_def cleanStep_def)
next
  case False
  from assms have "\<forall>c \<in> set out. CHR ''/'' \<notin> set c" by (simp add: list_all_iff isReal_def)
  with False have "splitSep (CHR ''/'' # joinSep out) = [] # out"
    by (simp add: splitSep_joinSep)
  with assms show ?thesis
    by (simp add: Clean_def IsAbs_def HasPrefix_def foldl_cleanStep_real cleanStep_def)
qed

lemma Clean_idem: "IsAbs X \<Longrightarrow> Clean (Clean X) = Clean X"
  using Clean_rooted [of X] Clean_joined by auto

lemma IsAbs_Clean: "IsAbs X \<Longrightarrow> IsAbs (Clean X)"
  using Clean_rooted [of X] by (auto simp: IsAbs_def HasPrefix_def)

lemma Clean_trailing_sep: "X \<noteq> [] \<Longrightarrow> Clean (X @ ''/'') = Clean X"
proof -
  assume ne: "X \<noteq> []"
  then have a: "IsAbs (X @ ''/'') = IsAbs X"
    by (cases X) (simp_all add: IsAbs_def HasPrefix_def)
  have "splitSep (X @ ''/'') = splitSep X @ [[]]"
    using splitSep_append_sep [of X "[]"] by simp
  with ne a show ?thesis by (simp add: Clean_def cleanStep_def)
qed

lemma Clean_append_name:
  assumes "t \<noteq> []" and "isReal name"
  shows "Clean (t @ CHR ''/'' # name) = cleanDir t @ name"
proof -
  from assms(1) have a: "IsAbs (t @ CHR ''/'' # name) = IsAbs t"
    by (cases t) (simp_all add: IsAbs_def HasPrefix_def)
  from assms(2) have "splitSep (t @ CHR ''/'' # name) = splitSep t @ [name]"
    by (simp add: splitSep_append_sep splitSep_no_sep isReal_def)
  then have f: "foldl (cleanStep r) [] (splitSep (t @ CHR ''/'' # name)) =
      foldl (cleanStep r) [] (splitSep t) @ [name]" for r
    using assms(2) by (simp add: cleanStep_real)
  show ?thesis
  proof (cases "IsAbs t")
    case True
    with a f [of True] show ?thesis
      by (simp add: Clean_def cleanDir_def Let_def joinSep_snoc)
  next
    case False
    with a f [of False] show ?thesis
      by (simp add: Clean_def cleanDir_def Let_def joinSep_snoc)
  qed
qed

lemma TempDir_nonempty: "TempDir env \<noteq> []"
  by (simp add: TempDir_def)

lemma socket_name_real: "isReal (ReplaceAll s CHR ''/'' CHR ''-'' @ ''-svelte-check.sock'')"
proof -
  let ?n = "ReplaceAll s CHR ''/'' CHR ''-'' @ ''-svelte-check.sock''"
  have sep: "CHR ''/'' \<notin> set ?n"
    by (auto simp: ReplaceAll_def)
  have len: "length ?n = length s + 18"
    by (simp add: ReplaceAll_def)
  have "?n \<noteq> []" by simp
  moreover have "?n \<noteq> ''.''"
  proof
    assume "?n = ''.''"
    then have "length ?n = length ''.''" by (rule arg_cong)
    with len show False by simp
  qed
  moreover have "?n \<noteq> ''..''"
  proof
    assume "?n = ''..''"
    then have "length ?n = length ''..''" by (rule arg_cong)
    with len show False by simp
  qed
  ultimately show ?thesis using sep unfolding isReal_def by blast
qed

lemma SocketPathForWorkspace_eq:
  "SocketPathForWorkspace env P =
     (case Abs env P of
        Inl err \<Rightarrow> Inl err
      | Inr A \<Rightarrow> Inr (cleanDir (TempDir env) @
                      ReplaceAll (TrimPrefix (Clean A) ''/'') CHR ''/'' CHR ''-'' @
                      ''-svelte-check.sock''))"
  by (simp add: SocketPathForWorkspace_def Join_def TempDir_nonempty Clean_append_name
      socket_name_real split: sum.splits)

lemma Abs_of_clean: "IsAbs P \<Longrightarrow> Clean P = P \<Longrightarrow> Abs env P = Inr P"
  by (simp add: Abs_def)

lemma TrimPrefix_sep: "IsAbs P \<Longrightarrow> CHR ''/'' # TrimPrefix P ''/'' = P"
  by (auto simp: IsAbs_def TrimPrefix_def HasPrefix_def prefix_def)

lemma socket_of_clean:
  assumes "IsAbs P" and "Clean P = P"
  shows "SocketPathForWorkspace env P =
     Inr (cleanDir (TempDir env) @ ReplaceAll (TrimPrefix P ''/'') CHR ''/'' CHR ''-'' @
          ''-svelte-check.sock'')"
  using assms by (simp add: SocketPathForWorkspace_eq Abs_of_clean)

lemma ReplaceAll_Cons_sep:
  "ReplaceAll (CHR ''/'' # s) CHR ''/'' CHR ''-'' = CHR ''-'' # ReplaceAll s CHR ''/'' CHR ''-''"
  by (simp add: ReplaceAll_def)

lemma ReplaceAll_inj:
  assumes "ReplaceAll P CHR ''/'' CHR ''-'' = ReplaceAll Q CHR ''/'' CHR ''-''"
    and "CHR ''-'' \<notin> set P" and "CHR ''-'' \<notin> set Q"
  shows "P = Q"
proof -
  have "inj_on (\<lambda>c. if c = CHR ''/'' then CHR ''-'' else c) (set P \<union> set Q)"
    using assms(2,3) by (auto simp: inj_on_def split: if_splits)
  with assms(1) show ?thesis
    unfolding ReplaceAll_def by (rule map_inj_on)
qed

text \<open>
  What the derivation identifies: two cleaned absolute workspace paths get the same socket
  path exactly when they are equal after every separator is replaced by a dash. So the
  derivation is injective on the cleaned absolute paths without a dash.
\<close>

theorem socket_path_injective_up_to_dashes:
  assumes "IsAbs P" and "Clean P = P" and "IsAbs Q" and "Clean Q = Q"
  shows "(SocketPathForWorkspace env P = SocketPathForWorkspace env Q \<longleftrightarrow>
            ReplaceAll P CHR ''/'' CHR ''-'' = ReplaceAll Q CHR ''/'' CHR ''-'') \<and>
         (CHR ''-'' \<notin> set P \<and> CHR ''-'' \<notin> set Q \<and> P \<noteq> Q \<longrightarrow>
            SocketPathForWorkspace env P \<noteq> SocketPathForWorkspace env Q)"
proof -
  let ?p = "TrimPrefix P ''/''" and ?q = "TrimPrefix Q ''/''"
  have P: "P = CHR ''/'' # ?p" and Q: "Q = CHR ''/'' # ?q"
    using assms(1,3) by (simp_all add: TrimPrefix_sep)
  have "SocketPathForWorkspace env P = SocketPathForWorkspace env Q \<longleftrightarrow>
      ReplaceAll ?p CHR ''/'' CHR ''-'' = ReplaceAll ?q CHR ''/'' CHR ''-''"
    using assms by (simp add: socket_of_clean)
  also have "\<dots> \<longleftrightarrow> ReplaceAll (CHR ''/'' # ?p) CHR ''/'' CHR ''-'' =
      ReplaceAll (CHR ''/'' # ?q) CHR ''/'' CHR ''-''"
    by (simp add: ReplaceAll_Cons_sep)
  finally have eq: "SocketPathForWorkspace env P = SocketPathForWorkspace env Q \<longleftrightarrow>
      ReplaceAll P CHR ''/'' CHR ''-'' = ReplaceAll Q CHR ''/'' CHR ''-''"
    using P Q by simp
  moreover have "SocketPathForWorkspace env P \<noteq> SocketPathForWorkspace env Q"
    if "CHR ''-'' \<notin> set P" and "CHR ''-'' \<notin> set Q" and "P \<noteq> Q"
    using eq that ReplaceAll_inj by blast
  ultimately show ?thesis by blast
qed

theorem socket_path_injective_up_to_dashes_witness:
  "IsAbs ''/home/user/project_a'' \<and> Clean ''/home/user/project_a'' = ''/home/user/project_a'' \<and>
   IsAbs ''/home/user/project/a'' \<and> Clean ''/home/user/project/a'' = ''/home/user/project/a'' \<and>
   CHR ''-'' \<notin> set ''/home/user/project_a'' \<and> CHR ''-'' \<notin> set ''/home/user/project/a'' \<and>
   ''/home/user/project_a'' \<noteq> ''/home/user/project/a'' \<and>
   SocketPathForWorkspace sampleProcess ''/home/user/project_a'' \<noteq>
   SocketPathForWorkspace sampleProcess ''/home/user/project/a''"
proof -
  have 1: "IsAbs ''/home/user/project_a''" by code_simp
  have 2: "Clean ''/home/user/project_a'' = ''/home/user/project_a''" by code_simp
  have 3: "IsAbs ''/home/user/project/a''" by code_simp
  have 4: "Clean ''/home/user/project/a'' = ''/home/user/project/a''" by code_simp
  have 5: "CHR ''-'' \<notin> set ''/home/user/project_a''" by simp
  have 6: "CHR ''-'' \<notin> set ''/home/user/project/a''" by simp
  have 7: "''/home/user/project_a'' \<noteq> ''/home/user/project/a''" by simp
  from socket_path_injective_up_to_dashes [OF 1 2 3 4, of sampleProcess] 5 6 7
  have "SocketPathForWorkspace sampleProcess ''/home/user/project_a'' \<noteq>
   SocketPathForWorkspace sampleProcess ''/home/user/project/a''"
    by blast
  with 1 2 3 4 5 6 7 show ?thesis by blast
qed

text \<open>
  Claim C1 says that two distinct cleaned absolute workspace paths get distinct socket
  paths. The code maps \<open>/home/user/project-a\<close> and \<open>/home/user/project/a\<close> to the same
  socket path.
\<close>

theorem socket_path_collision:
  "IsAbs ''/home/user/project-a'' \<and> Clean ''/home/user/project-a'' = ''/home/user/project-a'' \<and>
   IsAbs ''/home/user/project/a'' \<and> Clean ''/home/user/project/a'' = ''/home/user/project/a'' \<and>
   ''/home/user/project-a'' \<noteq> ''/home/user/project/a'' \<and>
   SocketPathForWorkspace sampleProcess ''/home/user/project-a'' =
     Inr ''/tmp/home-user-project-a-svelte-check.sock'' \<and>
   SocketPathForWorkspace sampleProcess ''/home/user/project/a'' =
     Inr ''/tmp/home-user-project-a-svelte-check.sock''"
  by code_simp

lemma Abs_trailing_sep: "P \<noteq> [] \<Longrightarrow> Abs env (P @ ''/'') = Abs env P"
proof -
  assume ne: "P \<noteq> []"
  then have a: "IsAbs (P @ ''/'') = IsAbs P"
    by (cases P) (simp_all add: IsAbs_def HasPrefix_def)
  have j: "Join wd (P @ ''/'') = Join wd P" for wd
    using ne Clean_trailing_sep [of "wd @ CHR ''/'' # P"] Clean_trailing_sep [of P]
    by (simp add: Join_def)
  from a j ne show ?thesis
    by (simp add: Abs_def Clean_trailing_sep split: sum.splits)
qed

lemma Abs_result:
  assumes "wellFormed env" and "Abs env P = Inr A"
  shows "IsAbs A \<and> Clean A = A"
proof (cases "IsAbs P")
  case True
  with assms(2) have "A = Clean P" by (simp add: Abs_def)
  with True show ?thesis by (simp add: IsAbs_Clean Clean_idem)
next
  case False
  with assms obtain wd where wd: "Getwd env = Inr wd" and A: "A = Join wd P"
    by (auto simp: Abs_def split: sum.splits)
  from assms(1) wd have abs: "IsAbs wd" by (simp add: wellFormed_def)
  then have ne: "wd \<noteq> []" by (auto simp: IsAbs_def HasPrefix_def)
  from abs ne have "IsAbs (wd @ CHR ''/'' # P)"
    by (cases wd) (simp_all add: IsAbs_def HasPrefix_def)
  with A ne show ?thesis by (simp add: Join_def IsAbs_Clean Clean_idem)
qed

text \<open>
  Claim C9, amended. For every workspace path \<open>P\<close> that is not empty,
  \<open>SocketPathForWorkspace\<close> returns the same for \<open>P\<close> and for \<open>P\<close> with a trailing separator
  appended; and when the working directory is absolute, as \<open>os.Getwd\<close> reports it, the
  cleaned absolute form of \<open>P\<close> is absolute and clean and gets the same socket path
  as \<open>P\<close>.
\<close>

theorem socket_path_normalization:
  assumes "P \<noteq> []"
  shows "SocketPathForWorkspace env (P @ ''/'') = SocketPathForWorkspace env P \<and>
         (wellFormed env \<longrightarrow>
            (\<forall>A. Abs env P = Inr A \<longrightarrow>
               IsAbs A \<and> Clean A = A \<and>
               SocketPathForWorkspace env A = SocketPathForWorkspace env P))"
proof (intro conjI impI allI)
  from assms show "SocketPathForWorkspace env (P @ ''/'') = SocketPathForWorkspace env P"
    by (simp add: SocketPathForWorkspace_def Abs_trailing_sep)
next
  fix A assume w: "wellFormed env" and A: "Abs env P = Inr A"
  from Abs_result [OF w A] show "IsAbs A" and c: "Clean A = A" by simp_all
  with \<open>IsAbs A\<close> have "Abs env A = Inr A" by (simp add: Abs_of_clean)
  with A show "SocketPathForWorkspace env A = SocketPathForWorkspace env P"
    by (simp add: SocketPathForWorkspace_def)
qed

theorem socket_path_normalization_witness:
  "''project'' \<noteq> [] \<and> wellFormed sampleProcess \<and>
   Abs sampleProcess ''project'' = Inr ''/home/user/project'' \<and>
   SocketPathForWorkspace sampleProcess ''project/'' =
     SocketPathForWorkspace sampleProcess ''project'' \<and>
   SocketPathForWorkspace sampleProcess ''/home/user/project'' =
     SocketPathForWorkspace sampleProcess ''project''"
proof -
  have n: "''project'' \<noteq> []" by simp
  have w: "wellFormed sampleProcess" by code_simp
  have a: "Abs sampleProcess ''project'' = Inr ''/home/user/project''" by code_simp
  note t = socket_path_normalization [OF n, of sampleProcess]
  from t have 1: "SocketPathForWorkspace sampleProcess ''project/'' =
     SocketPathForWorkspace sampleProcess ''project''"
    by simp
  from t w a have 2: "SocketPathForWorkspace sampleProcess ''/home/user/project'' =
     SocketPathForWorkspace sampleProcess ''project''"
    by blast
  from n w a 1 2 show ?thesis by blast
qed

text \<open>
  Claim C9 as stated fails for the empty path: \<open>filepath.Abs\<close> resolves it to the working
  directory, and the empty path with a separator appended is the root.
\<close>

theorem socket_path_empty_counterexample:
  "SocketPathForWorkspace sampleProcess [] = Inr ''/tmp/home-user-svelte-check.sock'' \<and>
   SocketPathForWorkspace sampleProcess ([] @ ''/'') = Inr ''/tmp/-svelte-check.sock''"
  by code_simp

subsection \<open>The watcher limit\<close>

lemma holders_update:
  "i < length ps \<Longrightarrow>
     holders (ps[i := p]) + (if holding (ps ! i) then 1 else 0) =
     holders ps + (if holding p then 1 else 0)"
proof (induction ps arbitrary: i)
  case Nil
  then show ?case by simp
next
  case (Cons q ps)
  show ?case
  proof (cases i)
    case 0
    then show ?thesis by (simp add: holders_def)
  next
    case (Suc j)
    with Cons.prems have "j < length ps" by simp
    from Cons.IH [OF this] Suc show ?thesis by (simp add: holders_def)
  qed
qed

lemma list_all_update: "list_all P ps \<Longrightarrow> P p \<Longrightarrow> list_all P (ps[i := p])"
  by (metis list_all_iff set_update_subset_insert subsetD insertE)

lemma list_all_nth: "list_all P ps \<Longrightarrow> i < length ps \<Longrightarrow> P (ps ! i)"
  by (simp add: list_all_iff)

lemma sint32_succ: "sint (x :: int32) < 100 \<Longrightarrow> sint (x + 1) = sint x + 1"
proof -
  assume a: "sint x < 100"
  have lo: "- (2 ^ 31) \<le> sint x" using sint_ge [of x] by simp
  have "sint (x + 1) = signed_take_bit 31 (sint x + 1)"
    by (simp add: sint_word_ariths)
  also have "\<dots> = sint x + 1"
    using a lo by (intro signed_take_bit_int_eq_self) simp_all
  finally show ?thesis .
qed

lemma sint32_pred: "0 < sint (x :: int32) \<Longrightarrow> sint (x - 1) = sint x - 1"
proof -
  assume a: "0 < sint x"
  have hi: "sint x < 2 ^ 31" using sint_lt [of x] by simp
  have "sint (x - 1) = signed_take_bit 31 (sint x - 1)"
    by (simp add: sint_word_ariths)
  also have "\<dots> = sint x - 1"
    using a hi by (intro signed_take_bit_int_eq_self) simp_all
  finally show ?thesis .
qed

lemma countInvariant_start: "countInvariant (startWorld n)"
  by (simp add: countInvariant_def startWorld_def holders_def list_all_iff)

lemma countInvariant_step:
  assumes inv: "countInvariant w"
  shows "countInvariant (goroutineStep ok i w)"
proof (cases "i < length (goroutines w)")
  case False
  with inv show ?thesis by (simp add: goroutineStep_def releaseWatcher_def)
next
  case True
  note i = True
  from inv have c: "sint (globalWatcherCount w) = int (holders (goroutines w))"
    and h: "holders (goroutines w) \<le> 100"
    and l: "list_all loadedBelowLimit (goroutines w)"
    by (simp_all add: countInvariant_def)
  note u = holders_update [OF i]
  show ?thesis
  proof (cases "goroutines w ! i")
    case AtLoad
    with i c h l u [of "Returned ErrTooManyWatchers"]
      u [of "AtCompareAndSwap (globalWatcherCount w)"]
    show ?thesis
      by (simp add: goroutineStep_def releaseWatcher_def countInvariant_def Let_def list_all_update)
  next
    case (AtCompareAndSwap current)
    from l i AtCompareAndSwap have b: "sint current < 100"
      using list_all_nth [of loadedBelowLimit "goroutines w" i] by (simp add: MaxWatchers_def)
    show ?thesis
    proof (cases "globalWatcherCount w = current")
      case True
      with b c have "holders (goroutines w) < 100" by simp
      with True i c l b AtCompareAndSwap u [of Acquired] show ?thesis
        by (simp add: goroutineStep_def releaseWatcher_def countInvariant_def list_all_update sint32_succ)
    next
      case False
      with i c h l AtCompareAndSwap u [of AtLoad] show ?thesis
        by (simp add: goroutineStep_def releaseWatcher_def countInvariant_def list_all_update)
    qed
  next
    case Acquired
    with u [of "Returned NewWatcherError"] have "0 < holders (goroutines w)" by simp
    with c have "0 < sint (globalWatcherCount w)" by simp
    then have "sint (globalWatcherCount w - 1) = sint (globalWatcherCount w) - 1"
      by (rule sint32_pred)
    with i c h l Acquired u [of Opened] u [of "Returned NewWatcherError"] show ?thesis
      by (auto simp: goroutineStep_def releaseWatcher_def countInvariant_def list_all_update)
  next
    case Opened
    with u [of Closed] have "0 < holders (goroutines w)" by simp
    with c have "0 < sint (globalWatcherCount w)" by simp
    then have "sint (globalWatcherCount w - 1) = sint (globalWatcherCount w) - 1"
      by (rule sint32_pred)
    with i c h l Opened u [of Closed] show ?thesis
      by (auto simp: goroutineStep_def releaseWatcher_def countInvariant_def list_all_update)
  next
    case (Returned err)
    with i c h l u [of AtLoad] show ?thesis
      by (simp add: goroutineStep_def releaseWatcher_def countInvariant_def list_all_update)
  next
    case Closed
    with i c h l u [of AtLoad] show ?thesis
      by (simp add: goroutineStep_def releaseWatcher_def countInvariant_def list_all_update)
  qed
qed

lemma countInvariant_run: "countInvariant w \<Longrightarrow> countInvariant (runSchedule sched w)"
proof (induction sched arbitrary: w)
  case Nil
  then show ?case by (simp add: runSchedule_def)
next
  case (Cons a sched)
  obtain ok i where a: "a = (ok, i)" by (cases a)
  from Cons.prems have "countInvariant (goroutineStep ok i w)" by (rule countInvariant_step)
  from Cons.IH [OF this] a show ?case by (simp add: runSchedule_def)
qed

lemma create_then_close:
  assumes "i < length (goroutines w)" and "goroutines w ! i = AtLoad"
    and "sint (globalWatcherCount w) < sint MaxWatchers"
  shows "goroutines (runSchedule [(True, i), (True, i), (True, i)] w) ! i = Opened"
    and "globalWatcherCount (runSchedule [(True, i), (True, i), (True, i)] w) =
           globalWatcherCount w + 1"
    and "goroutines (runSchedule [(True, i), (True, i), (True, i), (ok, i)] w) ! i = Closed"
    and "globalWatcherCount (runSchedule [(True, i), (True, i), (True, i), (ok, i)] w) =
           globalWatcherCount w"
  using assms by (simp_all add: runSchedule_def goroutineStep_def releaseWatcher_def Let_def)

text \<open>
  Claim C8. Whatever the interleaving of the goroutines, the global watcher counter is
  never below 0 and never above 100, and it equals the number of watchers acquired and
  not yet released. \<open>acquireWatcher\<close> returns \<open>ErrTooManyWatchers\<close>, the counter unchanged,
  when it loads a count at the limit; below the limit and undisturbed, its
  compare-and-swap succeeds at the first turn of the loop and the successful creation
  leaves the counter one higher; the \<open>Close\<close> that follows decrements it exactly once,
  back to its prior value. The compare-and-swap stores the loaded count plus one when the
  counter still holds the loaded count, and otherwise leaves the counter as it is and
  sends the goroutine back to the \<open>Load\<close> at the head of the loop.
\<close>

theorem watcher_count_conservation:
  "0 \<le> sint (globalWatcherCount (runSchedule sched (startWorld n))) \<and>
   sint (globalWatcherCount (runSchedule sched (startWorld n))) \<le> sint MaxWatchers \<and>
   sint (globalWatcherCount (runSchedule sched (startWorld n))) =
     int (holders (goroutines (runSchedule sched (startWorld n)))) \<and>
   (i < length (goroutines w) \<and> goroutines w ! i = AtLoad \<and>
    sint (globalWatcherCount w) \<ge> sint MaxWatchers \<longrightarrow>
      goroutineStep ok i w = w\<lparr>goroutines := (goroutines w)[i := Returned ErrTooManyWatchers]\<rparr>) \<and>
   (i < length (goroutines w) \<and> goroutines w ! i = AtLoad \<and>
    sint (globalWatcherCount w) < sint MaxWatchers \<longrightarrow>
      goroutines (runSchedule [(True, i), (True, i), (True, i)] w) ! i = Opened \<and>
      globalWatcherCount (runSchedule [(True, i), (True, i), (True, i)] w) =
        globalWatcherCount w + 1 \<and>
      goroutines (runSchedule [(True, i), (True, i), (True, i), (ok, i)] w) ! i = Closed \<and>
      globalWatcherCount (runSchedule [(True, i), (True, i), (True, i), (ok, i)] w) =
        globalWatcherCount w) \<and>
   (i < length (goroutines w) \<and> goroutines w ! i = Opened \<longrightarrow>
      globalWatcherCount (goroutineStep ok i w) = globalWatcherCount w - 1 \<and>
      goroutines (goroutineStep ok i w) ! i = Closed) \<and>
   (i < length (goroutines w) \<and> goroutines w ! i = AtCompareAndSwap current \<longrightarrow>
      goroutineStep ok i w =
        (if globalWatcherCount w = current
         then w\<lparr>globalWatcherCount := current + 1,
                goroutines := (goroutines w)[i := Acquired]\<rparr>
         else w\<lparr>goroutines := (goroutines w)[i := AtLoad]\<rparr>))"
proof -
  have "countInvariant (runSchedule sched (startWorld n))"
    by (rule countInvariant_run) (rule countInvariant_start)
  then have a: "0 \<le> sint (globalWatcherCount (runSchedule sched (startWorld n)))"
    and b: "sint (globalWatcherCount (runSchedule sched (startWorld n))) \<le> sint MaxWatchers"
    and c: "sint (globalWatcherCount (runSchedule sched (startWorld n))) =
     int (holders (goroutines (runSchedule sched (startWorld n))))"
    by (simp_all add: countInvariant_def MaxWatchers_def)
  have d: "goroutineStep ok i w = w\<lparr>goroutines := (goroutines w)[i := Returned ErrTooManyWatchers]\<rparr>"
    if "i < length (goroutines w)" "goroutines w ! i = AtLoad"
      "sint (globalWatcherCount w) \<ge> sint MaxWatchers"
    using that by (simp add: goroutineStep_def releaseWatcher_def Let_def)
  have e: "globalWatcherCount (goroutineStep ok i w) = globalWatcherCount w - 1 \<and>
      goroutines (goroutineStep ok i w) ! i = Closed"
    if "i < length (goroutines w)" "goroutines w ! i = Opened"
    using that by (simp add: goroutineStep_def releaseWatcher_def)
  have f: "goroutines (runSchedule [(True, i), (True, i), (True, i)] w) ! i = Opened \<and>
      globalWatcherCount (runSchedule [(True, i), (True, i), (True, i)] w) =
        globalWatcherCount w + 1 \<and>
      goroutines (runSchedule [(True, i), (True, i), (True, i), (ok, i)] w) ! i = Closed \<and>
      globalWatcherCount (runSchedule [(True, i), (True, i), (True, i), (ok, i)] w) =
        globalWatcherCount w"
    if "i < length (goroutines w)" "goroutines w ! i = AtLoad"
      "sint (globalWatcherCount w) < sint MaxWatchers"
    using that by (simp add: create_then_close)
  have g: "goroutineStep ok i w =
        (if globalWatcherCount w = current
         then w\<lparr>globalWatcherCount := current + 1,
                goroutines := (goroutines w)[i := Acquired]\<rparr>
         else w\<lparr>goroutines := (goroutines w)[i := AtLoad]\<rparr>)"
    if "i < length (goroutines w)" "goroutines w ! i = AtCompareAndSwap current"
    using that by (simp add: goroutineStep_def)
  from a b c d e f g show ?thesis by blast
qed

theorem watcher_count_conservation_witness:
  "sint (globalWatcherCount (runSchedule raceSchedule (startWorld 2))) = 2 \<and>
   goroutines (runSchedule raceSchedule (startWorld 2)) = [Acquired, Acquired] \<and>
   (0::nat) < length (goroutines fullWorld) \<and> goroutines fullWorld ! 0 = AtLoad \<and>
   sint (globalWatcherCount fullWorld) \<ge> sint MaxWatchers \<and>
   goroutineStep True 0 fullWorld = fullWorld\<lparr>goroutines := [Returned ErrTooManyWatchers]\<rparr> \<and>
   (0::nat) < length (goroutines (startWorld 1)) \<and> goroutines (startWorld 1) ! 0 = AtLoad \<and>
   sint (globalWatcherCount (startWorld 1)) < sint MaxWatchers \<and>
   globalWatcherCount (runSchedule [(True, 0), (True, 0), (True, 0)] (startWorld 1)) = 1 \<and>
   globalWatcherCount (runSchedule [(True, 0), (True, 0), (True, 0), (True, 0)] (startWorld 1)) = 0 \<and>
   (0::nat) < length (goroutines staleWorld) \<and> goroutines staleWorld ! 0 = AtCompareAndSwap 0 \<and>
   globalWatcherCount staleWorld \<noteq> 0 \<and>
   goroutineStep True 0 staleWorld = staleWorld\<lparr>goroutines := [AtLoad]\<rparr>"
proof -
  have r: "goroutines (runSchedule raceSchedule (startWorld 2)) = [Acquired, Acquired]"
    by code_simp
  have f1: "(0::nat) < length (goroutines fullWorld)" by code_simp
  have f2: "goroutines fullWorld ! 0 = AtLoad" by code_simp
  have f3: "sint (globalWatcherCount fullWorld) \<ge> sint MaxWatchers" by code_simp
  have s1: "(0::nat) < length (goroutines (startWorld 1))" by code_simp
  have s2: "goroutines (startWorld 1) ! 0 = AtLoad" by code_simp
  have s3: "sint (globalWatcherCount (startWorld 1)) < sint MaxWatchers" by code_simp
  from watcher_count_conservation [of raceSchedule 2] r
  have 1: "sint (globalWatcherCount (runSchedule raceSchedule (startWorld 2))) = 2"
    by (simp add: holders_def)
  from watcher_count_conservation [of "[]" 0 0 fullWorld True] f1 f2 f3
  have 2: "goroutineStep True 0 fullWorld = fullWorld\<lparr>goroutines := [Returned ErrTooManyWatchers]\<rparr>"
    by (simp add: fullWorld_def)
  from watcher_count_conservation [of "[]" 0 0 "startWorld 1" True] s1 s2 s3
  have 3: "globalWatcherCount (runSchedule [(True, 0), (True, 0), (True, 0)] (startWorld 1)) = 1"
    and 4: "globalWatcherCount (runSchedule [(True, 0), (True, 0), (True, 0), (True, 0)] (startWorld 1)) = 0"
    by (simp_all add: startWorld_def)
  have c1: "(0::nat) < length (goroutines staleWorld)" by code_simp
  have c2: "goroutines staleWorld ! 0 = AtCompareAndSwap 0" by code_simp
  have c3: "globalWatcherCount staleWorld \<noteq> 0" by code_simp
  from watcher_count_conservation [of "[]" 0 0 staleWorld True 0] c1 c2 c3
  have 5: "goroutineStep True 0 staleWorld = staleWorld\<lparr>goroutines := [AtLoad]\<rparr>"
    by (simp add: staleWorld_def)
  from r f1 f2 f3 s1 s2 s3 1 2 3 4 c1 c2 c3 5 show ?thesis by blast
qed

end
